theory Spec2Isabelle
  imports Main
begin

section \<open>JavaScript primitives used by the terminal\<close>

text \<open>
  A JavaScript string is a sequence of UTF-16 code units. The model uses \<open>string\<close>
  (a list of 8-bit characters) and reads a character as the code unit with the same
  number, so it covers the strings whose code units are below 256. Within that range
  \<^verbatim>\<open>String.prototype.trim\<close> removes TAB, LF, VT, FF, CR, SPACE and NBSP, and
  \<^verbatim>\<open>toLowerCase\<close> moves \<open>A\<close>..\<open>Z\<close> and the accented capitals
  U+00C0..U+00DE (without the multiplication sign U+00D7) up by 32.
\<close>

definition js_whitespace :: "char \<Rightarrow> bool" where
  "js_whitespace c = (of_char c \<in> {9, 10, 11, 12, 13, 32, 160 :: nat})"

definition trim :: "string \<Rightarrow> string" where
  "trim s = rev (dropWhile js_whitespace (rev (dropWhile js_whitespace s)))"

text \<open>
  In both ranges of capitals bit 5 (value 32) is clear, so adding 32 is setting that bit.
\<close>

definition lower_char :: "char \<Rightarrow> char" where
  "lower_char c =
     (let n = (of_char c :: nat)
      in if (65 \<le> n \<and> n \<le> 90) \<or> (192 \<le> n \<and> n \<le> 222 \<and> n \<noteq> 215)
         then (case c of Char b0 b1 b2 b3 b4 b5 b6 b7 \<Rightarrow> Char b0 b1 b2 b3 b4 True b6 b7)
         else c)"

definition toLowerCase :: "string \<Rightarrow> string" where
  "toLowerCase s = map lower_char s"

text \<open>
  \<^verbatim>\<open>s.split(' ')\<close>: cut at every single space. The result is never empty
  (\<^verbatim>\<open>''.split(' ')\<close> is \<^verbatim>\<open>['']\<close>), and two adjacent spaces give an empty token.
\<close>

fun split_space :: "string \<Rightarrow> string list" where
  "split_space [] = [[]]"
| "split_space (c # cs) =
     (if c = CHR '' '' then [] # split_space cs
      else (case split_space cs of
              [] \<Rightarrow> [[c]]
            | t # ts \<Rightarrow> (c # t) # ts))"

text \<open>\<^verbatim>\<open>xs.join(sep)\<close>.\<close>

fun join :: "string \<Rightarrow> string list \<Rightarrow> string" where
  "join sep [] = []"
| "join sep [x] = x"
| "join sep (x # y # ys) = x @ sep @ join sep (y # ys)"

text \<open>\<^verbatim>\<open>s.startsWith(p)\<close>.\<close>

definition startsWith :: "string \<Rightarrow> string \<Rightarrow> bool" where
  "startsWith s p = (take (length p) s = p)"

section \<open>The route table\<close>

text \<open>
  \<^verbatim>\<open>pages\<close> is an object literal; \<^verbatim>\<open>Object.keys\<close> lists its own keys in the
  order they were written, so the table is an association list.
\<close>

definition pages :: "(string \<times> string) list" where
  "pages =
    [(''about'', ''/about''),
     (''resume'', ''/resume''),
     (''projects'', ''/projects''),
     (''contact'', ''/contact''),
     (''blog'', ''/blog''),
     (''tools'', ''/tools''),
     (''templates'', ''/templates''),
     (''privacy'', ''/privacy''),
     (''terms'', ''/terms''),
     (''home'', ''/''),
     (''index'', ''/''),
     (''cheesecake'', ''/cheesecake'')]"

definition Object_keys :: "(string \<times> string) list \<Rightarrow> string list" where
  "Object_keys obj = map fst obj"

text \<open>
  The value of a property read \<^verbatim>\<open>this.pages[target]\<close>. The object literal inherits
  from \<^verbatim>\<open>Object.prototype\<close>, so a read of a name that is not an own key but is a member
  of the prototype yields that member (a function, or the prototype object itself for
  \<^verbatim>\<open>__proto__\<close>), and \<^verbatim>\<open>undefined\<close> only otherwise.
\<close>

datatype js_value = Undefined | Str string | Inherited string

definition Object_prototype_keys :: "string list" where
  "Object_prototype_keys =
    [''constructor'', ''__proto__'', ''hasOwnProperty'', ''isPrototypeOf'',
     ''propertyIsEnumerable'', ''toLocaleString'', ''toString'', ''valueOf'',
     ''__defineGetter__'', ''__defineSetter__'', ''__lookupGetter__'', ''__lookupSetter__'']"

definition pages_get :: "string \<Rightarrow> js_value" where
  "pages_get k =
     (case map_of pages k of
        Some v \<Rightarrow> Str v
      | None \<Rightarrow> if k \<in> set Object_prototype_keys then Inherited k else Undefined)"

text \<open>Truthiness, as tested by \<^verbatim>\<open>if (this.pages[target])\<close>.\<close>

fun truthy :: "js_value \<Rightarrow> bool" where
  "truthy Undefined = False"
| "truthy (Str v) = (v \<noteq> [])"
| "truthy (Inherited k) = True"

section \<open>The terminal's state\<close>

text \<open>
  The fields of the class, with the two DOM elements reduced to what the code reads and
  writes: \<open>input\<close> is \<^verbatim>\<open>this.input.value\<close>; \<open>outputLog\<close> is the list of lines under
  \<^verbatim>\<open>this.output\<close>, each with its text and the class name handed to \<^verbatim>\<open>addOutput\<close>;
  \<open>scheduled\<close> holds the pending \<^verbatim>\<open>setTimeout\<close> callbacks, each with its delay and
  the value it will assign to \<^verbatim>\<open>window.location.href\<close>.
\<close>

record terminal =
  history :: "string list"
  historyIndex :: int
  currentPath :: string
  input :: string
  outputLog :: "(string \<times> string) list"
  scheduled :: "(nat \<times> js_value) list"

definition addOutput :: "string \<Rightarrow> string \<Rightarrow> terminal \<Rightarrow> terminal" where
  "addOutput text className s = s\<lparr>outputLog := outputLog s @ [(text, className)]\<rparr>"

definition addPrompt :: "terminal \<Rightarrow> terminal" where
  "addPrompt s = s"

definition setTimeout_navigate :: "js_value \<Rightarrow> nat \<Rightarrow> terminal \<Rightarrow> terminal" where
  "setTimeout_navigate dest delay s = s\<lparr>scheduled := scheduled s @ [(delay, dest)]\<rparr>"

text \<open>The state the constructor leaves: empty fields and the welcome banner.\<close>

definition init :: terminal where
  "init =
     (addOutput [] [] \<circ>
      addOutput ''Type \"help\" to see available commands.'' [] \<circ>
      addOutput ''Welcome to Marlon Ausby Junior's website!'' [])
       \<lparr>history = [], historyIndex = - 1, currentPath = ''/'', input = [],
        outputLog = [], scheduled = []\<rparr>"

section \<open>Command handlers\<close>

definition handleCd :: "string list \<Rightarrow> terminal \<Rightarrow> terminal" where
  "handleCd args s =
     (case args of
        [] \<Rightarrow> addPrompt (addOutput ''~'' [] (s\<lparr>currentPath := ''/''\<rparr>))
      | a # _ \<Rightarrow>
          (let target = toLowerCase a in
           if truthy (pages_get target) then
             setTimeout_navigate (pages_get target) 300
               (addOutput (''Navigating to '' @ target @ ''...'') [] s)
           else
             addPrompt
               (addOutput
                  (''Available pages: '' @
                     join '', ''
                       (filter (\<lambda>p. p \<noteq> ''home'' \<and> p \<noteq> ''index'') (Object_keys pages)))
                  []
                  (addOutput (''cd: no such page: '' @ target) [] s))))"

definition handleLs :: "terminal \<Rightarrow> terminal" where
  "handleLs s =
     (let pgs = filter (\<lambda>p. p \<noteq> ''home'' \<and> p \<noteq> ''index'') (Object_keys pages)
      in addPrompt (addOutput (join ''  '' pgs) [] s))"

definition handleHelp :: "terminal \<Rightarrow> terminal" where
  "handleHelp s =
     addPrompt
      ((addOutput
          (''  '' @ join '', ''
             (filter (\<lambda>p. p \<noteq> ''home'' \<and> p \<noteq> ''index'') (Object_keys pages))) [] \<circ>
        addOutput ''Available pages:'' [] \<circ>
        addOutput [] [] \<circ>
        addOutput ''  help          - Show this help message'' [] \<circ>
        addOutput ''  clear         - Clear terminal output'' [] \<circ>
        addOutput ''  pwd           - Show current location'' [] \<circ>
        addOutput ''  ls            - List available pages'' [] \<circ>
        addOutput ''  cd <page>     - Navigate to a page (e.g., cd resume)'' [] \<circ>
        addOutput ''Available commands:'' []) s)"

definition handleClear :: "terminal \<Rightarrow> terminal" where
  "handleClear s = addPrompt (s\<lparr>outputLog := []\<rparr>)"

definition handlePwd :: "terminal \<Rightarrow> terminal" where
  "handlePwd s = addPrompt (addOutput (currentPath s) [] s)"

definition handleCat :: "string list \<Rightarrow> terminal \<Rightarrow> terminal" where
  "handleCat args s =
     addPrompt
       (case args of
          [] \<Rightarrow> addOutput ''Try: cat <filename>'' []
                  (addOutput ''cat: missing file operand'' [] s)
        | a # _ \<Rightarrow> addOutput (''cat: '' @ a @ '': No such file or directory'') [] s)"

definition executeCommand :: "string \<Rightarrow> terminal \<Rightarrow> terminal" where
  "executeCommand command s =
     (if command = [] then addPrompt s
      else
        let s1 = s\<lparr>history := history s @ [command]\<rparr>;
            s2 = addOutput (''visitor@marlonjr:~$ '' @ command) ''command'' s1;
            parts = split_space command;
            cmd = toLowerCase (hd parts);
            args = tl parts
        in if cmd = ''cd'' then handleCd args s2
           else if cmd = ''ls'' then handleLs s2
           else if cmd = ''help'' then handleHelp s2
           else if cmd = ''clear'' then handleClear s2
           else if cmd = ''pwd'' then handlePwd s2
           else if cmd = ''cat'' then handleCat args s2
           else addPrompt
                  (addOutput
                     (''Command not found: '' @ cmd @
                        ''. Type \"help\" for available commands.'') [] s2))"

section \<open>Key handling\<close>

text \<open>
  \<^verbatim>\<open>this.history[i]\<close> assigned to the input field: out of range the read is
  \<^verbatim>\<open>undefined\<close>, which the field stores as the text \<^verbatim>\<open>undefined\<close>.
\<close>

definition history_at :: "terminal \<Rightarrow> int \<Rightarrow> string" where
  "history_at s i =
     (if 0 \<le> i \<and> i < int (length (history s)) then history s ! nat i
      else ''undefined'')"

definition handleTabCompletion :: "terminal \<Rightarrow> terminal" where
  "handleTabCompletion s =
     (let inp = trim (input s);
          parts = split_space inp;
          command = hd parts;
          arg = (case tl parts of [] \<Rightarrow> [] | a # _ \<Rightarrow> a)
      in if command = ''cd'' \<and> arg \<noteq> [] then
           let matches = filter (\<lambda>page. startsWith page (toLowerCase arg)) (Object_keys pages)
           in if length matches = 1 then s\<lparr>input := ''cd '' @ hd matches\<rparr>
              else if length matches > 1 then addPrompt (addOutput (join ''  '' matches) [] s)
              else s
         else s)"

datatype key = Enter | ArrowUp | ArrowDown | Tab | OtherKey

definition handleKeyDown :: "key \<Rightarrow> terminal \<Rightarrow> terminal" where
  "handleKeyDown e s =
     (case e of
        Enter \<Rightarrow> (executeCommand (trim (input s)) s)\<lparr>input := [], historyIndex := - 1\<rparr>
      | ArrowUp \<Rightarrow>
          (if length (history s) > 0 then
             let s1 = (if historyIndex s = - 1
                       then s\<lparr>historyIndex := int (length (history s))\<rparr> else s)
             in if historyIndex s1 > 0 then
                  let s2 = s1\<lparr>historyIndex := historyIndex s1 - 1\<rparr>
                  in s2\<lparr>input := history_at s2 (historyIndex s2)\<rparr>
                else s1
           else s)
      | ArrowDown \<Rightarrow>
          (if historyIndex s \<ge> 0 then
             let s1 = s\<lparr>historyIndex := historyIndex s + 1\<rparr>
             in if historyIndex s1 \<ge> int (length (history s1))
                then s1\<lparr>historyIndex := - 1, input := []\<rparr>
                else s1\<lparr>input := history_at s1 (historyIndex s1)\<rparr>
           else s)
      | Tab \<Rightarrow> handleTabCompletion s
      | OtherKey \<Rightarrow> s)"

text \<open>
  What can happen to a terminal: a key goes down, or the browser's own text editing
  replaces the content of the input field (\<^verbatim>\<open>handleInput\<close> then only resizes the
  field). A run is a sequence of such events from the constructor's state.
\<close>

datatype event = KeyDown key | InputChange string

fun step :: "terminal \<Rightarrow> event \<Rightarrow> terminal" where
  "step s (KeyDown k) = handleKeyDown k s"
| "step s (InputChange txt) = s\<lparr>input := txt\<rparr>"

definition run :: "event list \<Rightarrow> terminal" where
  "run evs = foldl step init evs"

text \<open>
  The cursor between two events: the sentinel \<open>-1\<close>, or the index of an entry of
  the history.
\<close>

definition cursor_ok :: "terminal \<Rightarrow> bool" where
  "cursor_ok s =
     (historyIndex s = - 1 \<or> (0 \<le> historyIndex s \<and> historyIndex s < int (length (history s))))"

section \<open>What each handler leaves alone\<close>


lemma addOutput_fields [simp]:
  "history (addOutput t c s) = history s"
  "historyIndex (addOutput t c s) = historyIndex s"
  "currentPath (addOutput t c s) = currentPath s"
  "input (addOutput t c s) = input s"
  "scheduled (addOutput t c s) = scheduled s"
  "outputLog (addOutput t c s) = outputLog s @ [(t, c)]"
  by (simp_all add: addOutput_def)

lemma setTimeout_navigate_fields [simp]:
  "history (setTimeout_navigate d n s) = history s"
  "historyIndex (setTimeout_navigate d n s) = historyIndex s"
  "currentPath (setTimeout_navigate d n s) = currentPath s"
  "input (setTimeout_navigate d n s) = input s"
  "outputLog (setTimeout_navigate d n s) = outputLog s"
  "scheduled (setTimeout_navigate d n s) = scheduled s @ [(n, d)]"
  by (simp_all add: setTimeout_navigate_def)

lemma handleCd_frame:
  "history (handleCd args s) = history s"
  "historyIndex (handleCd args s) = historyIndex s"
  "input (handleCd args s) = input s"
  by (simp_all add: handleCd_def addPrompt_def Let_def split: list.splits)

lemma handleLs_frame:
  "history (handleLs s) = history s"
  "historyIndex (handleLs s) = historyIndex s"
  "input (handleLs s) = input s"
  "currentPath (handleLs s) = currentPath s"
  "scheduled (handleLs s) = scheduled s"
  by (simp_all add: handleLs_def addPrompt_def Let_def)

lemma handleHelp_frame:
  "history (handleHelp s) = history s"
  "historyIndex (handleHelp s) = historyIndex s"
  "input (handleHelp s) = input s"
  "currentPath (handleHelp s) = currentPath s"
  "scheduled (handleHelp s) = scheduled s"
  by (simp_all add: handleHelp_def addPrompt_def)

lemma handleClear_frame:
  "history (handleClear s) = history s"
  "historyIndex (handleClear s) = historyIndex s"
  "input (handleClear s) = input s"
  "currentPath (handleClear s) = currentPath s"
  "scheduled (handleClear s) = scheduled s"
  "outputLog (handleClear s) = []"
  by (simp_all add: handleClear_def addPrompt_def)

lemma handlePwd_frame:
  "history (handlePwd s) = history s"
  "historyIndex (handlePwd s) = historyIndex s"
  "input (handlePwd s) = input s"
  "currentPath (handlePwd s) = currentPath s"
  "scheduled (handlePwd s) = scheduled s"
  "outputLog (handlePwd s) = outputLog s @ [(currentPath s, [])]"
  by (simp_all add: handlePwd_def addPrompt_def)

lemma handleCat_frame:
  "history (handleCat args s) = history s"
  "historyIndex (handleCat args s) = historyIndex s"
  "input (handleCat args s) = input s"
  "currentPath (handleCat args s) = currentPath s"
  "scheduled (handleCat args s) = scheduled s"
  by (simp_all add: handleCat_def addPrompt_def split: list.splits)

lemmas handler_frames =
  handleCd_frame handleLs_frame handleHelp_frame handleClear_frame handlePwd_frame
  handleCat_frame

lemma executeCommand_history:
  "history (executeCommand c s) = (if c = [] then history s else history s @ [c])"
  by (simp add: executeCommand_def addPrompt_def Let_def handler_frames)

lemma executeCommand_historyIndex:
  "historyIndex (executeCommand c s) = historyIndex s"
  by (simp add: executeCommand_def addPrompt_def Let_def handler_frames)

lemma executeCommand_input:
  "input (executeCommand c s) = input s"
  by (simp add: executeCommand_def addPrompt_def Let_def handler_frames)

lemma handleCd_currentPath:
  "currentPath (handleCd args s) = (if args = [] then ''/'' else currentPath s)"
  by (simp add: handleCd_def addPrompt_def Let_def split: list.splits)

lemma executeCommand_currentPath:
  "currentPath (executeCommand c s) = currentPath s \<or> currentPath (executeCommand c s) = ''/''"
  by (simp add: executeCommand_def addPrompt_def Let_def handler_frames handleCd_currentPath)

lemma handleTabCompletion_frame:
  "history (handleTabCompletion s) = history s"
  "historyIndex (handleTabCompletion s) = historyIndex s"
  "currentPath (handleTabCompletion s) = currentPath s"
  "scheduled (handleTabCompletion s) = scheduled s"
  by (simp_all add: handleTabCompletion_def addPrompt_def Let_def)

section \<open>String helpers\<close>

lemma trim_whitespace: "\<forall>c\<in>set xs. js_whitespace c \<Longrightarrow> trim xs = []"
proof -
  assume a: "\<forall>c\<in>set xs. js_whitespace c"
  then have d: "dropWhile js_whitespace xs = []" by simp
  show ?thesis unfolding trim_def d by simp
qed

lemma split_space_not_Nil: "split_space xs \<noteq> []"
  by (induction xs) (auto split: list.splits)

lemma split_space_no_space: "CHR '' '' \<notin> set xs \<Longrightarrow> split_space xs = [xs]"
  by (induction xs) auto

lemma split_space_cd: "CHR '' '' \<notin> set a \<Longrightarrow> split_space (''cd '' @ a) = [''cd'', a]"
  by (simp add: split_space_no_space)

lemma toLowerCase_cd: "toLowerCase ''cd'' = ''cd''"
  by (simp add: toLowerCase_def lower_char_def)

lemma executeCommand_cd:
  assumes "CHR '' '' \<notin> set a"
  shows "executeCommand (''cd '' @ a) s =
         handleCd [a]
           (addOutput (''visitor@marlonjr:~$ cd '' @ a) ''command''
              (s\<lparr>history := history s @ [''cd '' @ a]\<rparr>))"
  using split_space_cd [OF assms]
  by (simp add: executeCommand_def Let_def toLowerCase_cd)

lemma second_token:
  "(case tl xs of [] \<Rightarrow> [] | a # _ \<Rightarrow> a) = (if length xs > 1 then xs ! 1 else [])"
  by (cases xs; cases "tl xs") auto

section \<open>The route table and its listings\<close>

lemma pages_entries:
  "list_all (\<lambda>(k, dest). CHR '' '' \<notin> set k \<and> toLowerCase k = k \<and>
      pages_get k = Str dest \<and> dest \<noteq> []) pages"
  by code_simp

lemma pages_entry:
  assumes "(k, dest) \<in> set pages"
  shows "CHR '' '' \<notin> set k" and "toLowerCase k = k" and "pages_get k = Str dest"
    and "dest \<noteq> []"
  using assms pages_entries by (auto simp: list_all_iff)

lemma listed_pages:
  "filter (\<lambda>p. p \<noteq> ''home'' \<and> p \<noteq> ''index'') (Object_keys pages) =
   [''about'', ''resume'', ''projects'', ''contact'', ''blog'', ''tools'', ''templates'',
    ''privacy'', ''terms'', ''cheesecake'']"
  by (simp add: Object_keys_def pages_def)

lemma pages_get_Undefined:
  assumes "k \<notin> set (Object_keys pages)" and "k \<notin> set Object_prototype_keys"
  shows "pages_get k = Undefined"
proof -
  from assms(1) have "map_of pages k = None"
    by (simp add: Object_keys_def map_of_eq_None_iff)
  with assms(2) show ?thesis by (simp add: pages_get_def)
qed

lemma distinct_keys: "distinct (Object_keys pages)"
  by (simp add: pages_def Object_keys_def)

section \<open>Committing a command\<close>

text \<open>Every handler but \<^verbatim>\<open>handleClear\<close> only appends untagged lines to the log.\<close>

lemma handleCd_appends:
  "\<exists>rest. outputLog (handleCd args s) = outputLog s @ rest \<and> (\<forall>l\<in>set rest. snd l = [])"
  by (cases args) (simp_all add: handleCd_def Let_def addPrompt_def)

lemma handleLs_appends:
  "\<exists>rest. outputLog (handleLs s) = outputLog s @ rest \<and> (\<forall>l\<in>set rest. snd l = [])"
  by (simp add: handleLs_def Let_def addPrompt_def)

lemma handleHelp_appends:
  "\<exists>rest. outputLog (handleHelp s) = outputLog s @ rest \<and> (\<forall>l\<in>set rest. snd l = [])"
  by (simp add: handleHelp_def addPrompt_def)

lemma handlePwd_appends:
  "\<exists>rest. outputLog (handlePwd s) = outputLog s @ rest \<and> (\<forall>l\<in>set rest. snd l = [])"
  by (simp add: handlePwd_def addPrompt_def)

lemma handleCat_appends:
  "\<exists>rest. outputLog (handleCat args s) = outputLog s @ rest \<and> (\<forall>l\<in>set rest. snd l = [])"
  by (cases args) (simp_all add: handleCat_def addPrompt_def)

lemma executeCommand_outputLog:
  assumes "c \<noteq> []"
  shows "if toLowerCase (hd (split_space c)) = ''clear''
         then outputLog (executeCommand c s) = []
         else \<exists>rest. outputLog (executeCommand c s) =
                  outputLog s @ (''visitor@marlonjr:~$ '' @ c, ''command'') # rest \<and>
                (\<forall>l\<in>set rest. snd l = [])"
proof -
  define E where "E = (''visitor@marlonjr:~$ '' @ c, ''command'')"
  define s2 where "s2 = addOutput (fst E) (snd E) (s\<lparr>history := history s @ [c]\<rparr>)"
  define cmd where "cmd = toLowerCase (hd (split_space c))"
  define args where "args = tl (split_space c)"
  have o2: "outputLog s2 = outputLog s @ [E]"
    by (simp add: s2_def)
  have lift: "\<exists>rest. outputLog t = outputLog s @ E # rest \<and> (\<forall>l\<in>set rest. snd l = [])"
    if "\<exists>rest. outputLog t = outputLog s2 @ rest \<and> (\<forall>l\<in>set rest. snd l = [])" for t
    using that by (simp add: o2)
  have ex: "executeCommand c s =
      (if cmd = ''cd'' then handleCd args s2
       else if cmd = ''ls'' then handleLs s2
       else if cmd = ''help'' then handleHelp s2
       else if cmd = ''clear'' then handleClear s2
       else if cmd = ''pwd'' then handlePwd s2
       else if cmd = ''cat'' then handleCat args s2
       else addOutput (''Command not found: '' @ cmd @
                        ''. Type \"help\" for available commands.'') [] s2)"
    using assms
    by (simp add: executeCommand_def Let_def s2_def E_def cmd_def args_def addPrompt_def)
  have other: "\<exists>rest. outputLog (addOutput t [] s2) = outputLog s @ E # rest \<and>
      (\<forall>l\<in>set rest. snd l = [])" for t
    by (simp add: o2)
  have "if cmd = ''clear'' then outputLog (executeCommand c s) = []
        else \<exists>rest. outputLog (executeCommand c s) = outputLog s @ E # rest \<and>
                (\<forall>l\<in>set rest. snd l = [])"
    unfolding ex
    using lift [OF handleCd_appends [of args s2]] lift [OF handleLs_appends [of s2]]
      lift [OF handleHelp_appends [of s2]] lift [OF handlePwd_appends [of s2]]
      lift [OF handleCat_appends [of args s2]] other
    by (simp add: handleClear_frame)
  then show ?thesis
    unfolding cmd_def E_def .
qed

text \<open>
  Claim C1, as amended. When Enter commits an input whose trimmed text \<open>c\<close> is not
  empty, the history gains exactly one entry, \<open>c\<close> itself. Unless the command name
  (the first token, lowercased) is \<open>clear\<close>, the log keeps its previous lines and
  gains, directly after them, the echoed line \<^verbatim>\<open>visitor@marlonjr:~$ c\<close> tagged
  \<open>command\<close>, followed only by lines without that tag. For \<open>clear\<close> the echoed
  line is erased with the rest of the log, which ends empty.
\<close>

theorem command_recorded_and_echoed:
  assumes "trim (input s) = c" and "c \<noteq> []"
  shows "history (handleKeyDown Enter s) = history s @ [c] \<and>
         (toLowerCase (hd (split_space c)) \<noteq> ''clear'' \<longrightarrow>
            (\<exists>rest. outputLog (handleKeyDown Enter s) =
                 outputLog s @ (''visitor@marlonjr:~$ '' @ c, ''command'') # rest \<and>
               (\<forall>l\<in>set rest. snd l \<noteq> ''command''))) \<and>
         (toLowerCase (hd (split_space c)) = ''clear'' \<longrightarrow>
            outputLog (handleKeyDown Enter s) = [])"
proof -
  have h: "history (handleKeyDown Enter s) = history s @ [c]"
    using assms by (simp add: handleKeyDown_def executeCommand_history)
  have o: "outputLog (handleKeyDown Enter s) = outputLog (executeCommand c s)"
    using assms by (simp add: handleKeyDown_def)
  from executeCommand_outputLog [OF assms(2), of s] h show ?thesis
    unfolding o by (auto split: if_splits)
qed

text \<open>
  Witness for C1: \<^verbatim>\<open>"  cat notes.txt "\<close> for the general case and
  \<^verbatim>\<open>"Clear"\<close> for the \<open>clear\<close> case.
\<close>

theorem command_recorded_and_echoed_witness:
  "trim (input (init\<lparr>input := ''  cat notes.txt ''\<rparr>)) = ''cat notes.txt'' \<and>
   history (handleKeyDown Enter (init\<lparr>input := ''  cat notes.txt ''\<rparr>)) = [''cat notes.txt''] \<and>
   take 4 (outputLog (handleKeyDown Enter (init\<lparr>input := ''  cat notes.txt ''\<rparr>))) =
     outputLog init @ [(''visitor@marlonjr:~$ cat notes.txt'', ''command'')] \<and>
   trim (input (init\<lparr>input := ''Clear''\<rparr>)) = ''Clear'' \<and>
   history (handleKeyDown Enter (init\<lparr>input := ''Clear''\<rparr>)) = [''Clear''] \<and>
   outputLog (handleKeyDown Enter (init\<lparr>input := ''Clear''\<rparr>)) = []"
proof -
  have t1: "trim (input (init\<lparr>input := ''  cat notes.txt ''\<rparr>)) = ''cat notes.txt''"
    by (simp add: trim_def js_whitespace_def)
  have n1: "''cat notes.txt'' \<noteq> []" by simp
  have c1: "toLowerCase (hd (split_space ''cat notes.txt'')) \<noteq> ''clear''"
    by (simp add: toLowerCase_def lower_char_def)
  have t2: "trim (input (init\<lparr>input := ''Clear''\<rparr>)) = ''Clear''"
    by (simp add: trim_def js_whitespace_def)
  have n2: "''Clear'' \<noteq> []" by simp
  have c2: "toLowerCase (hd (split_space ''Clear'')) = ''clear''"
    by (simp add: toLowerCase_def lower_char_def)
  have i: "history init = []" "length (outputLog init) = 3" by (simp_all add: init_def)
  from command_recorded_and_echoed [OF t1 n1] c1 i
  have a: "history (handleKeyDown Enter (init\<lparr>input := ''  cat notes.txt ''\<rparr>)) = [''cat notes.txt'']"
    and "\<exists>rest. outputLog (handleKeyDown Enter (init\<lparr>input := ''  cat notes.txt ''\<rparr>)) =
       outputLog init @ (''visitor@marlonjr:~$ cat notes.txt'', ''command'') # rest"
    by auto
  then obtain rest where
    "outputLog (handleKeyDown Enter (init\<lparr>input := ''  cat notes.txt ''\<rparr>)) =
       (outputLog init @ [(''visitor@marlonjr:~$ cat notes.txt'', ''command'')]) @ rest"
    by auto
  then have b: "take 4 (outputLog (handleKeyDown Enter (init\<lparr>input := ''  cat notes.txt ''\<rparr>))) =
     outputLog init @ [(''visitor@marlonjr:~$ cat notes.txt'', ''command'')]"
    using i(2) by simp
  from command_recorded_and_echoed [OF t2 n2] c2 i
  have c: "history (handleKeyDown Enter (init\<lparr>input := ''Clear''\<rparr>)) = [''Clear'']"
    "outputLog (handleKeyDown Enter (init\<lparr>input := ''Clear''\<rparr>)) = []"
    by auto
  from t1 a b t2 c show ?thesis by blast
qed

text \<open>
  Counterexample to C1 as stated: after Enter on \<^verbatim>\<open>clear\<close> the log holds no
  echoed line at all.
\<close>

theorem clear_erases_echo:
  "trim ''clear'' = ''clear'' \<and>
   (''visitor@marlonjr:~$ clear'', ''command'') \<notin>
     set (outputLog (handleKeyDown Enter (init\<lparr>input := ''clear''\<rparr>))) \<and>
   outputLog (handleKeyDown Enter (init\<lparr>input := ''clear''\<rparr>)) = []"
  by (simp add: trim_def js_whitespace_def handleKeyDown_def executeCommand_def Let_def
      toLowerCase_def lower_char_def handleClear_def addPrompt_def)

section \<open>History navigation\<close>

text \<open>
  Claim C2. From any state with empty history and the cursor at the sentinel, after
  \<open>ls\<close>, \<open>pwd\<close>, \<open>help\<close> are typed and committed in that order, three Ups
  show \<open>help\<close>, \<open>pwd\<close>, \<open>ls\<close>; a fourth Up leaves \<open>ls\<close>; three Downs
  then show \<open>pwd\<close>, \<open>help\<close> and the empty string, with the cursor back at the
  sentinel.
\<close>

theorem history_navigation_trace:
  "let s0 = s\<lparr>history := [], historyIndex := - 1\<rparr>;
       s3 = foldl step s0
              [InputChange ''ls'', KeyDown Enter,
               InputChange ''pwd'', KeyDown Enter,
               InputChange ''help'', KeyDown Enter];
       u1 = handleKeyDown ArrowUp s3;
       u2 = handleKeyDown ArrowUp u1;
       u3 = handleKeyDown ArrowUp u2;
       u4 = handleKeyDown ArrowUp u3;
       d1 = handleKeyDown ArrowDown u4;
       d2 = handleKeyDown ArrowDown d1;
       d3 = handleKeyDown ArrowDown d2
   in history s3 = [''ls'', ''pwd'', ''help''] \<and> historyIndex s3 = - 1 \<and>
      input u1 = ''help'' \<and> input u2 = ''pwd'' \<and> input u3 = ''ls'' \<and>
      input u4 = ''ls'' \<and>
      input d1 = ''pwd'' \<and> input d2 = ''help'' \<and>
      input d3 = [] \<and> historyIndex d3 = - 1"
proof -
  define s3 where "s3 = foldl step (s\<lparr>history := [], historyIndex := - 1\<rparr>)
              [InputChange ''ls'', KeyDown Enter,
               InputChange ''pwd'', KeyDown Enter,
               InputChange ''help'', KeyDown Enter]"
  have h: "history s3 = [''ls'', ''pwd'', ''help'']"
    by (simp add: s3_def handleKeyDown_def executeCommand_history trim_def js_whitespace_def)
  have i: "historyIndex s3 = - 1"
    by (simp add: s3_def handleKeyDown_def)
  show ?thesis
    unfolding Let_def s3_def [symmetric]
    using h i by (simp add: handleKeyDown_def history_at_def Let_def)
qed

lemma cursor_ok_step: "cursor_ok s \<Longrightarrow> cursor_ok (step s e)"
proof (cases e)
  case (InputChange new)
  assume "cursor_ok s"
  with InputChange show ?thesis by (simp add: cursor_ok_def)
next
  case (KeyDown k)
  assume ok: "cursor_ok s"
  show ?thesis
  proof (cases k)
    case Enter
    with KeyDown show ?thesis by (simp add: cursor_ok_def handleKeyDown_def)
  next
    case ArrowUp
    with KeyDown ok show ?thesis
      by (auto simp: cursor_ok_def handleKeyDown_def Let_def)
  next
    case ArrowDown
    with KeyDown ok show ?thesis
      by (auto simp: cursor_ok_def handleKeyDown_def Let_def)
  next
    case Tab
    with KeyDown ok show ?thesis
      by (simp add: cursor_ok_def handleKeyDown_def handleTabCompletion_frame)
  next
    case OtherKey
    with KeyDown ok show ?thesis by (simp add: handleKeyDown_def)
  qed
qed

lemma cursor_ok_foldl: "cursor_ok s \<Longrightarrow> cursor_ok (foldl step s evs)"
  by (induction evs arbitrary: s) (simp_all add: cursor_ok_step)

lemma cursor_ok_init: "cursor_ok init"
  by (simp add: cursor_ok_def init_def)

lemma cursor_ok_run: "cursor_ok (run evs)"
  unfolding run_def by (rule cursor_ok_foldl [OF cursor_ok_init])

text \<open>
  Claim C3. After any sequence of key events (Enter, Up, Down, Tab, other keys) and
  edits of the input field, \<open>historyIndex\<close> is the sentinel \<open>-1\<close> or lies in
  \<open>[0, length history]\<close>; and in any state where it equals \<open>length history\<close>, a Down
  key event resets it to the sentinel.
\<close>

theorem historyIndex_in_range:
  "(historyIndex (run evs) = - 1 \<or>
      (0 \<le> historyIndex (run evs) \<and>
       historyIndex (run evs) \<le> int (length (history (run evs))))) \<and>
   (historyIndex s = int (length (history s)) \<longrightarrow>
      historyIndex (handleKeyDown ArrowDown s) = - 1)"
proof
  from cursor_ok_run [of evs]
  show "historyIndex (run evs) = - 1 \<or>
      (0 \<le> historyIndex (run evs) \<and>
       historyIndex (run evs) \<le> int (length (history (run evs))))"
    by (auto simp: cursor_ok_def)
next
  show "historyIndex s = int (length (history s)) \<longrightarrow>
      historyIndex (handleKeyDown ArrowDown s) = - 1"
    by (simp add: handleKeyDown_def Let_def)
qed

text \<open>Witness for C3: a cursor one past the only entry, then Down.\<close>

theorem historyIndex_in_range_witness:
  "historyIndex (init\<lparr>history := [''ls''], historyIndex := 1\<rparr>) =
     int (length (history (init\<lparr>history := [''ls''], historyIndex := 1\<rparr>))) \<and>
   historyIndex (handleKeyDown ArrowDown (init\<lparr>history := [''ls''], historyIndex := 1\<rparr>)) = - 1"
proof -
  have h: "historyIndex (init\<lparr>history := [''ls''], historyIndex := 1\<rparr>) =
     int (length (history (init\<lparr>history := [''ls''], historyIndex := 1\<rparr>)))"
    by simp
  from historyIndex_in_range [of "[]" "init\<lparr>history := [''ls''], historyIndex := 1\<rparr>"] h
  show ?thesis by simp
qed

section \<open>Tab completion\<close>

text \<open>
  Claim C4. Tab changes the state only when the first space-separated token of the
  trimmed input is exactly \<open>cd\<close> and the second token is present and not empty. Then,
  with \<open>M\<close> the route-table keys that start with the lowercased second token: one
  match rewrites the input field to \<open>cd\<close>, a space and the match; no match changes
  nothing; several matches append one line, the matches joined by two spaces, and leave
  the input field as it is. The keys are distinct, so \<open>M\<close> has as many members as the
  set of matching keys.
\<close>

theorem tab_completion:
  "let parts = split_space (trim (input s));
       command = hd parts;
       arg = (if length parts > 1 then parts ! 1 else []);
       M = filter (\<lambda>k. startsWith k (toLowerCase arg)) (Object_keys pages);
       s' = handleKeyDown Tab s
   in (\<not> (command = ''cd'' \<and> arg \<noteq> []) \<longrightarrow> s' = s) \<and>
      (command = ''cd'' \<and> arg \<noteq> [] \<longrightarrow>
         (\<forall>m. M = [m] \<longrightarrow> s' = s\<lparr>input := ''cd '' @ m\<rparr>) \<and>
         (M = [] \<longrightarrow> s' = s) \<and>
         (length M > 1 \<longrightarrow> s' = s\<lparr>outputLog := outputLog s @ [(join ''  '' M, [])]\<rparr>)) \<and>
      card (set M) = length M"
proof -
  have d: "distinct (filter (\<lambda>k. startsWith k (toLowerCase a)) (Object_keys pages))" for a
    using distinct_keys by simp
  have c: "card (set (filter (\<lambda>k. startsWith k (toLowerCase a)) (Object_keys pages))) =
           length (filter (\<lambda>k. startsWith k (toLowerCase a)) (Object_keys pages))" for a
    by (rule distinct_card [OF d])
  show ?thesis
    unfolding Let_def handleKeyDown_def handleTabCompletion_def second_token c
    by (auto simp: addOutput_def addPrompt_def)
qed

text \<open>
  Witness for C4: one match, no match, three matches, another command, no argument.
\<close>

theorem tab_completion_witness:
  "handleKeyDown Tab (init\<lparr>input := ''cd pro''\<rparr>) = init\<lparr>input := ''cd projects''\<rparr> \<and>
   handleKeyDown Tab (init\<lparr>input := ''cd zzz''\<rparr>) = init\<lparr>input := ''cd zzz''\<rparr> \<and>
   handleKeyDown Tab (init\<lparr>input := ''cd T''\<rparr>) =
     init\<lparr>input := ''cd T'', outputLog := outputLog init @ [(''tools  templates  terms'', [])]\<rparr> \<and>
   handleKeyDown Tab (init\<lparr>input := ''ls pro''\<rparr>) = init\<lparr>input := ''ls pro''\<rparr> \<and>
   handleKeyDown Tab (init\<lparr>input := ''cd''\<rparr>) = init\<lparr>input := ''cd''\<rparr>"
  using tab_completion [of "init\<lparr>input := ''cd pro''\<rparr>"]
    tab_completion [of "init\<lparr>input := ''cd zzz''\<rparr>"]
    tab_completion [of "init\<lparr>input := ''cd T''\<rparr>"]
    tab_completion [of "init\<lparr>input := ''ls pro''\<rparr>"]
    tab_completion [of "init\<lparr>input := ''cd''\<rparr>"]
  by (simp add: Let_def trim_def js_whitespace_def toLowerCase_def lower_char_def
      startsWith_def Object_keys_def pages_def)

section \<open>The cd command\<close>

text \<open>
  Claim C5. For every entry \<open>(k, dest)\<close> of the route table, executing \<open>cd k\<close> adds
  the command to the history, appends the echoed line and the line
  \<^verbatim>\<open>Navigating to k...\<close>, and schedules exactly one navigation, to \<open>dest\<close>
  with delay 300; nothing else changes.
\<close>

theorem cd_known_page:
  assumes "(k, dest) \<in> set pages"
  shows "executeCommand (''cd '' @ k) s =
         s\<lparr>history := history s @ [''cd '' @ k],
           outputLog := outputLog s @
             [(''visitor@marlonjr:~$ cd '' @ k, ''command''),
              (''Navigating to '' @ k @ ''...'', [])],
           scheduled := scheduled s @ [(300, Str dest)]\<rparr>"
proof -
  note e = pages_entry [OF assms]
  show ?thesis
    unfolding executeCommand_cd [OF e(1)]
    by (simp add: handleCd_def Let_def e addOutput_def setTimeout_navigate_def)
qed

text \<open>Witness for C5: \<open>cd resume\<close> in the constructor's state.\<close>

theorem cd_known_page_witness:
  "(''resume'', ''/resume'') \<in> set pages \<and>
   executeCommand ''cd resume'' init =
     init\<lparr>history := [''cd resume''],
          outputLog := outputLog init @
            [(''visitor@marlonjr:~$ cd resume'', ''command''),
             (''Navigating to resume...'', [])],
          scheduled := [(300, Str ''/resume'')]\<rparr>"
proof -
  have h: "(''resume'', ''/resume'') \<in> set pages" by (simp add: pages_def)
  show ?thesis using h cd_known_page [OF h, of init] by (simp add: init_def)
qed

text \<open>
  An argument that, lowercased, is neither a key of the table nor a member of
  \<^verbatim>\<open>Object.prototype\<close> gets the two error lines and no navigation.
\<close>

lemma cd_unknown_page:
  assumes "CHR '' '' \<notin> set a"
    and "toLowerCase a \<notin> set (Object_keys pages)"
    and "toLowerCase a \<notin> set Object_prototype_keys"
  shows "executeCommand (''cd '' @ a) s =
     s\<lparr>history := history s @ [''cd '' @ a],
       outputLog := outputLog s @
         [(''visitor@marlonjr:~$ cd '' @ a, ''command''),
          (''cd: no such page: '' @ toLowerCase a, []),
          (''Available pages: about, resume, projects, contact, blog, tools, templates, privacy, terms, cheesecake'', [])]\<rparr>"
  unfolding executeCommand_cd [OF assms(1)]
  by (simp add: handleCd_def Let_def pages_get_Undefined [OF assms(2,3)] listed_pages
      addOutput_def addPrompt_def)

text \<open>
  Claim C6 fails on the code at \<open>cd constructor\<close>: \<open>constructor\<close> is not a key of
  the route table, yet \<^verbatim>\<open>this.pages['constructor']\<close> is the inherited, truthy
  \<^verbatim>\<open>Object\<close> function, so the code prints \<^verbatim>\<open>Navigating to constructor...\<close>
  and schedules a navigation instead of reporting \<^verbatim>\<open>cd: no such page\<close>.
\<close>

theorem cd_constructor_navigates:
  "''constructor'' \<notin> set (Object_keys pages) \<and>
   executeCommand ''cd constructor'' s =
     s\<lparr>history := history s @ [''cd constructor''],
       outputLog := outputLog s @
         [(''visitor@marlonjr:~$ cd constructor'', ''command''),
          (''Navigating to constructor...'', [])],
       scheduled := scheduled s @ [(300, Inherited ''constructor'')]\<rparr>"
proof -
  have sp: "CHR '' '' \<notin> set ''constructor''" by simp
  have lc: "toLowerCase ''constructor'' = ''constructor''"
    by (simp add: toLowerCase_def lower_char_def)
  have pg: "pages_get ''constructor'' = Inherited ''constructor''"
    by (simp add: pages_get_def pages_def Object_prototype_keys_def)
  have nk: "''constructor'' \<notin> set (Object_keys pages)"
    by (simp add: Object_keys_def pages_def)
  have "executeCommand (''cd '' @ ''constructor'') s =
     s\<lparr>history := history s @ [''cd constructor''],
       outputLog := outputLog s @
         [(''visitor@marlonjr:~$ cd constructor'', ''command''),
          (''Navigating to constructor...'', [])],
       scheduled := scheduled s @ [(300, Inherited ''constructor'')]\<rparr>"
    unfolding executeCommand_cd [OF sp]
    by (simp add: handleCd_def Let_def lc pg addOutput_def setTimeout_navigate_def)
  with nk show ?thesis by simp
qed

section \<open>The shape of the route table\<close>

text \<open>
  Claim C7, as amended. The route table has exactly 12 entries with distinct aliases and
  exactly 11 distinct destination paths. The only two different aliases with the same
  destination are \<open>home\<close> and \<open>index\<close>, both mapped to the root path, and exactly
  these two are left out of the listings of \<open>ls\<close>, \<open>help\<close> and the error message
  of \<open>cd\<close> for an unknown page.
\<close>

theorem route_table_shape:
  "length pages = 12 \<and>
   distinct (Object_keys pages) \<and>
   card (snd ` set pages) = 11 \<and>
   [(a, b). (a, p) \<leftarrow> pages, (b, q) \<leftarrow> pages, a \<noteq> b \<and> p = q] =
     [(''home'', ''index''), (''index'', ''home'')] \<and>
   map_of pages ''home'' = Some ''/'' \<and>
   map_of pages ''index'' = Some ''/'' \<and>
   set [''about'', ''resume'', ''projects'', ''contact'', ''blog'', ''tools'', ''templates'',
        ''privacy'', ''terms'', ''cheesecake''] =
     set (Object_keys pages) - {''home'', ''index''} \<and>
   outputLog (handleLs s) = outputLog s @
     [(''about  resume  projects  contact  blog  tools  templates  privacy  terms  cheesecake'', [])] \<and>
   last (outputLog (handleHelp s)) =
     (''  about, resume, projects, contact, blog, tools, templates, privacy, terms, cheesecake'', []) \<and>
   outputLog (handleCd [''xyz''] s) = outputLog s @
     [(''cd: no such page: xyz'', []),
      (''Available pages: about, resume, projects, contact, blog, tools, templates, privacy, terms, cheesecake'', [])]"
proof -
  have a: "length pages = 12" by (simp add: pages_def)
  have c: "card (snd ` set pages) = 11" by (simp add: pages_def)
  have d: "[(a, b). (a, p) \<leftarrow> pages, (b, q) \<leftarrow> pages, a \<noteq> b \<and> p = q] =
     [(''home'', ''index''), (''index'', ''home'')]" by code_simp
  have m: "map_of pages ''home'' = Some ''/''" "map_of pages ''index'' = Some ''/''"
    by (simp_all add: pages_def)
  have e: "set [''about'', ''resume'', ''projects'', ''contact'', ''blog'', ''tools'', ''templates'',
        ''privacy'', ''terms'', ''cheesecake''] =
     set (Object_keys pages) - {''home'', ''index''}"
    unfolding listed_pages [symmetric] by auto
  have f: "outputLog (handleLs s) = outputLog s @
     [(''about  resume  projects  contact  blog  tools  templates  privacy  terms  cheesecake'', [])]"
    by (simp add: handleLs_def Let_def listed_pages addPrompt_def)
  have g: "last (outputLog (handleHelp s)) =
     (''  about, resume, projects, contact, blog, tools, templates, privacy, terms, cheesecake'', [])"
    by (simp add: handleHelp_def listed_pages addPrompt_def)
  have u: "pages_get (toLowerCase ''xyz'') = Undefined"
    by (simp add: toLowerCase_def lower_char_def pages_get_def pages_def Object_prototype_keys_def)
  have l: "toLowerCase ''xyz'' = ''xyz''"
    by (simp add: toLowerCase_def lower_char_def)
  have h: "outputLog (handleCd [''xyz''] s) = outputLog s @
     [(''cd: no such page: xyz'', []),
      (''Available pages: about, resume, projects, contact, blog, tools, templates, privacy, terms, cheesecake'', [])]"
    by (simp add: handleCd_def Let_def u listed_pages addPrompt_def) (simp add: l)
  from a distinct_keys c d m e f g h show ?thesis by blast
qed

text \<open>
  Counterexample to C7 as stated: the twelve entries do not have ten distinct
  destinations.
\<close>

theorem route_table_not_ten_paths:
  "length pages = 12 \<and> card (snd ` set pages) \<noteq> 10"
  by (simp add: pages_def)

section \<open>The clear command\<close>

lemma nat_int_pred: "nat (int m - 1) = m - Suc 0"
  by simp

lemma up_from_sentinel:
  assumes "historyIndex t = - 1" and "history t \<noteq> []"
  shows "handleKeyDown ArrowUp t =
         t\<lparr>historyIndex := int (length (history t)) - 1,
           input := history t ! (length (history t) - 1)\<rparr>"
  using assms by (simp add: handleKeyDown_def Let_def history_at_def nat_int_pred)

lemma up_from_entry:
  assumes "historyIndex t = int i" and "0 < i" and "i \<le> length (history t)"
  shows "handleKeyDown ArrowUp t =
         t\<lparr>historyIndex := int i - 1, input := history t ! (i - 1)\<rparr>"
proof -
  from assms have "history t \<noteq> []" by auto
  then show ?thesis
    using assms by (simp add: handleKeyDown_def Let_def history_at_def nat_int_pred)
qed

lemma ups:
  assumes "historyIndex s = - 1"
  shows "0 < n \<Longrightarrow> n \<le> length (history s) \<Longrightarrow>
         input ((handleKeyDown ArrowUp ^^ n) s) = history s ! (length (history s) - n) \<and>
         historyIndex ((handleKeyDown ArrowUp ^^ n) s) = int (length (history s)) - int n \<and>
         history ((handleKeyDown ArrowUp ^^ n) s) = history s"
proof (induction n)
  case 0
  then show ?case by simp
next
  case (Suc n)
  show ?case
  proof (cases "n = 0")
    case True
    from Suc.prems have ne: "history s \<noteq> []" by auto
    have st: "(handleKeyDown ArrowUp ^^ Suc n) s = handleKeyDown ArrowUp s"
      using True by simp
    show ?thesis
      unfolding st up_from_sentinel [OF assms ne] using True by simp
  next
    case False
    define t where "t = (handleKeyDown ArrowUp ^^ n) s"
    define i where "i = length (history s) - n"
    from Suc.prems have le: "n \<le> length (history s)" by simp
    from False Suc.IH le have ih: "historyIndex t = int (length (history s)) - int n"
      "history t = history s"
      by (simp_all add: t_def)
    from le have ii: "int (length (history s)) - int n = int i"
      by (simp add: i_def)
    from Suc.prems have b: "0 < i" "i \<le> length (history t)"
      by (simp_all add: ih i_def)
    have st: "(handleKeyDown ArrowUp ^^ Suc n) s = handleKeyDown ArrowUp t"
      by (simp add: t_def)
    have d: "i - 1 = length (history s) - Suc n" by (simp add: i_def)
    have e: "int i - 1 = int (length (history s)) - int (Suc n)"
      unfolding ii [symmetric] by simp
    show ?thesis
      unfolding st up_from_entry [OF ih(1) [unfolded ii] b] d e by (simp add: ih(2))
  qed
qed

text \<open>
  Executing a command whose name is \<open>clear\<close>: the command is recorded in the history
  like every command, and the log ends empty.
\<close>

lemma executeCommand_clear:
  assumes "toLowerCase (hd (split_space c)) = ''clear''"
  shows "executeCommand c s = s\<lparr>history := history s @ [c], outputLog := []\<rparr>"
proof -
  from assms have "c \<noteq> []"
    by (auto simp: toLowerCase_def)
  with assms show ?thesis
    by (simp add: executeCommand_def Let_def handleClear_def addPrompt_def addOutput_def)
qed

text \<open>
  Claim C8. \<^verbatim>\<open>handleClear\<close>, the step that carries out \<open>clear\<close>, empties the
  output log entirely and leaves the history, the cursor and the input field (and the
  current path and the scheduled navigations) unchanged, so an Up pressed after it does
  to cursor and input field what it would have done without it. In particular, when a
  \<open>clear\<close> command is committed with Enter, the log ends empty and the Ups that
  follow still recall every command executed before it, newest first, right after the
  \<open>clear\<close> command itself.
\<close>

theorem clear_effect:
  "outputLog (handleClear s) = [] \<and>
   history (handleClear s) = history s \<and>
   historyIndex (handleClear s) = historyIndex s \<and>
   input (handleClear s) = input s \<and>
   currentPath (handleClear s) = currentPath s \<and>
   scheduled (handleClear s) = scheduled s \<and>
   handleKeyDown ArrowUp (handleClear s) = handleClear (handleKeyDown ArrowUp s) \<and>
   (toLowerCase (hd (split_space c)) = ''clear'' \<and> trim (input s) = c \<longrightarrow>
      outputLog (handleKeyDown Enter s) = [] \<and>
      (\<forall>n. 0 < n \<and> n \<le> length (history s) \<longrightarrow>
         input ((handleKeyDown ArrowUp ^^ Suc n) (handleKeyDown Enter s)) =
           history s ! (length (history s) - n)))"
proof -
  have hc: "handleClear t = t\<lparr>outputLog := []\<rparr>" for t
    by (simp add: handleClear_def addPrompt_def)
  have up: "handleKeyDown ArrowUp (handleClear s) = handleClear (handleKeyDown ArrowUp s)"
    unfolding hc by (simp add: handleKeyDown_def Let_def history_at_def)
  have k: "handleKeyDown Enter s =
        s\<lparr>history := history s @ [c], outputLog := [], input := [], historyIndex := - 1\<rparr>"
    if "toLowerCase (hd (split_space c)) = ''clear''" "trim (input s) = c"
    using that executeCommand_clear [OF that(1), of s] by (simp add: handleKeyDown_def)
  have u: "input ((handleKeyDown ArrowUp ^^ Suc n) (handleKeyDown Enter s)) =
             history s ! (length (history s) - n)"
    if c: "toLowerCase (hd (split_space c)) = ''clear''" "trim (input s) = c"
      and n: "0 < n" "n \<le> length (history s)" for n
  proof -
    have "input ((handleKeyDown ArrowUp ^^ Suc n) (handleKeyDown Enter s)) =
            (history s @ [c]) ! (length (history s) - n)"
      using ups [of "handleKeyDown Enter s" "Suc n"] n by (simp add: k [OF c])
    also have "\<dots> = history s ! (length (history s) - n)"
    proof -
      from n have "length (history s) - n < length (history s)" by arith
      then show ?thesis by (simp add: nth_append)
    qed
    finally show ?thesis .
  qed
  have o: "outputLog (handleKeyDown Enter s) = []"
    if "toLowerCase (hd (split_space c)) = ''clear''" "trim (input s) = c"
    by (simp add: k [OF that])
  from up o u show ?thesis
    by (simp add: hc)
qed

text \<open>
  Witness for C8: \<open>clear\<close> committed after \<open>ls\<close> and \<open>pwd\<close>; the second Up
  shows \<open>pwd\<close>, the third \<open>ls\<close>.
\<close>

theorem clear_effect_witness:
  "toLowerCase (hd (split_space ''clear'')) = ''clear'' \<and>
   trim (input (init\<lparr>history := [''ls'', ''pwd''], input := ''clear''\<rparr>)) = ''clear'' \<and>
   outputLog (handleKeyDown Enter (init\<lparr>history := [''ls'', ''pwd''], input := ''clear''\<rparr>)) = [] \<and>
   input (handleKeyDown ArrowUp (handleKeyDown ArrowUp
     (handleKeyDown Enter (init\<lparr>history := [''ls'', ''pwd''], input := ''clear''\<rparr>)))) = ''pwd'' \<and>
   input (handleKeyDown ArrowUp (handleKeyDown ArrowUp (handleKeyDown ArrowUp
     (handleKeyDown Enter (init\<lparr>history := [''ls'', ''pwd''], input := ''clear''\<rparr>))))) = ''ls''"
proof -
  define s0 where "s0 = init\<lparr>history := [''ls'', ''pwd''], input := ''clear''\<rparr>"
  have h: "toLowerCase (hd (split_space ''clear'')) = ''clear''"
    by (simp add: toLowerCase_def lower_char_def)
  have t: "trim (input s0) = ''clear''"
    by (simp add: s0_def trim_def js_whitespace_def)
  from clear_effect [of s0 "''clear''"] h t
  have a: "outputLog (handleKeyDown Enter s0) = []"
    and b: "\<forall>n. 0 < n \<and> n \<le> length (history s0) \<longrightarrow>
       input ((handleKeyDown ArrowUp ^^ Suc n) (handleKeyDown Enter s0)) =
       history s0 ! (length (history s0) - n)"
    by blast+
  have l: "history s0 = [''ls'', ''pwd'']" by (simp add: s0_def)
  from b [rule_format, of "Suc 0"] b [rule_format, of "Suc (Suc 0)"] h t a
  show ?thesis
    unfolding s0_def [symmetric] by (simp add: l)
qed

section \<open>Committing a blank input\<close>

text \<open>
  Claim C9. When the input field is empty or holds only whitespace, it trims to the
  empty string and Enter leaves the history and the log as they were (and schedules
  nothing and keeps the current path).
\<close>

theorem blank_commit_changes_nothing:
  assumes "\<forall>c\<in>set (input s). js_whitespace c"
  shows "trim (input s) = [] \<and>
         history (handleKeyDown Enter s) = history s \<and>
         outputLog (handleKeyDown Enter s) = outputLog s \<and>
         scheduled (handleKeyDown Enter s) = scheduled s \<and>
         currentPath (handleKeyDown Enter s) = currentPath s"
  using trim_whitespace [OF assms]
  by (simp add: handleKeyDown_def executeCommand_def addPrompt_def)

text \<open>Witness for C9: three spaces, and the empty field.\<close>

theorem blank_commit_changes_nothing_witness:
  "trim (input (init\<lparr>input := ''   ''\<rparr>)) = [] \<and>
   history (handleKeyDown Enter (init\<lparr>input := ''   ''\<rparr>)) = history init \<and>
   outputLog (handleKeyDown Enter (init\<lparr>input := ''   ''\<rparr>)) = outputLog init \<and>
   history (handleKeyDown Enter (init\<lparr>input := []\<rparr>)) = history init \<and>
   outputLog (handleKeyDown Enter (init\<lparr>input := []\<rparr>)) = outputLog init"
proof -
  have h1: "\<forall>c\<in>set (input (init\<lparr>input := ''   ''\<rparr>)). js_whitespace c"
    by (simp add: js_whitespace_def)
  have h2: "\<forall>c\<in>set (input (init\<lparr>input := []\<rparr>)). js_whitespace c"
    by simp
  show ?thesis
    using blank_commit_changes_nothing [OF h1] blank_commit_changes_nothing [OF h2]
    by simp
qed

section \<open>The current path\<close>

lemma currentPath_step: "currentPath (step s e) = currentPath s \<or> currentPath (step s e) = ''/''"
proof (cases e)
  case (InputChange new)
  then show ?thesis by simp
next
  case (KeyDown k)
  then show ?thesis
    using executeCommand_currentPath [of "trim (input s)" s]
    by (cases k) (auto simp: handleKeyDown_def Let_def handleTabCompletion_frame)
qed

lemma currentPath_foldl: "currentPath s = ''/'' \<Longrightarrow> currentPath (foldl step s evs) = ''/''"
proof (induction evs arbitrary: s)
  case Nil
  then show ?case by simp
next
  case (Cons e evs)
  from currentPath_step [of s e] Cons.prems have "currentPath (step s e) = ''/''" by auto
  then show ?case using Cons.IH by simp
qed

text \<open>
  Claim C10. \<open>currentPath\<close> starts as \<open>/\<close>; \<open>cd\<close> without arguments assigns
  \<open>/\<close>; an event either keeps \<open>currentPath\<close> or sets it to \<open>/\<close>; so it is \<open>/\<close>
  after every sequence of events, and \<open>pwd\<close> then appends the line \<open>/\<close>.
\<close>

theorem currentPath_always_root:
  "currentPath init = ''/'' \<and>
   currentPath (handleCd [] s) = ''/'' \<and>
   (currentPath (step s e) = currentPath s \<or> currentPath (step s e) = ''/'') \<and>
   currentPath (run evs) = ''/'' \<and>
   outputLog (handlePwd (run evs)) = outputLog (run evs) @ [(''/'', [])]"
proof -
  have i: "currentPath init = ''/''" by (simp add: init_def)
  have r: "currentPath (run evs) = ''/''"
    unfolding run_def by (rule currentPath_foldl [OF i])
  show ?thesis
    using i r currentPath_step [of s e] by (simp add: handleCd_currentPath handlePwd_frame)
qed

end
